theory Spec2Isabelle
  imports Main "HOL-Library.Word" "HOL-Library.Char_ord" "HOL-Library.List_Lexorder"
begin

section \<open>Backend registry (backend\_manager.hpp, backend\_manager.cpp)\<close>

text \<open>
  Ports are \<open>uint16_t\<close>. A \<open>steady_clock::time_point\<close> is a tick count; every
  operation that reads the clock takes its readings as an argument.
\<close>

type_synonym time_point = nat

record BackendConfig =
  cfg_host :: string
  cfg_port :: "16 word"
  cfg_health_endpoint :: string

record BackendServer =
  host :: string
  port :: "16 word"
  health_endpoint :: string
  is_healthy :: bool
  last_check :: time_point

text \<open>
  The constructor \<open>BackendServer(h, p, ep)\<close>: the health flag starts \<open>true\<close> and the
  time stamp is the clock reading.
\<close>

definition BackendServer_new :: "time_point \<Rightarrow> string \<Rightarrow> 16 word \<Rightarrow> string \<Rightarrow> BackendServer" where
  "BackendServer_new now h p ep =
     \<lparr>host = h, port = p, health_endpoint = ep, is_healthy = True, last_check = now\<rparr>"

text \<open>
  \<open>BackendManager\<close> owns the vector \<open>backends_\<close>. The shared mutex serialises the
  operations; each of them is modelled as one atomic step on the vector. The members
  \<open>backends_\<close> and \<open>counter_\<close> are written without the trailing underscore.
\<close>

record BackendManager =
  backends :: "BackendServer list"

text \<open>
  A \<open>BackendServer*\<close> handed out by the manager points at an element of \<open>backends_\<close>.
  The vector never grows after construction, so the address of an element is fixed by its
  position: a pointer is modelled as that position, and \<open>deref\<close> reads through it.
\<close>

type_synonym backend_ptr = nat

definition deref :: "BackendManager \<Rightarrow> backend_ptr \<Rightarrow> BackendServer" where
  "deref m p = backends m ! p"

text \<open>
  The constructor: one \<open>emplace_back\<close> per configuration entry, in order. Every
  \<open>BackendServer\<close> constructor reads the clock itself: \<open>clock k\<close> is the reading taken by
  the constructor of the backend at position \<open>k\<close>.
\<close>

fun emplace_all :: "(nat \<Rightarrow> time_point) \<Rightarrow> BackendConfig list \<Rightarrow> BackendServer list \<Rightarrow> BackendServer list" where
  "emplace_all clock [] acc = acc"
| "emplace_all clock (config # rest) acc =
     emplace_all clock rest
       (acc @ [BackendServer_new (clock (length acc))
                 (cfg_host config) (cfg_port config) (cfg_health_endpoint config)])"

definition BackendManager_new :: "(nat \<Rightarrow> time_point) \<Rightarrow> BackendConfig list \<Rightarrow> BackendManager" where
  "BackendManager_new clock backend_configs = \<lparr>backends = emplace_all clock backend_configs []\<rparr>"

text \<open>
  \<open>get_all_backends\<close>: the range-for loop walks \<open>backends_\<close> front to back and pushes
  the address of every element onto \<open>result\<close>. The first argument of the loop is the
  position of the element the loop is at.
\<close>

fun get_all_loop :: "nat \<Rightarrow> BackendServer list \<Rightarrow> backend_ptr list \<Rightarrow> backend_ptr list" where
  "get_all_loop i [] result = result"
| "get_all_loop i (backend # rest) result = get_all_loop (Suc i) rest (result @ [i])"

definition get_all_backends :: "BackendManager \<Rightarrow> backend_ptr list" where
  "get_all_backends m = get_all_loop 0 (backends m) []"

text \<open>\<open>get_healthy_backends\<close>: the same walk, pushing only when the flag is set.\<close>

fun get_healthy_loop :: "nat \<Rightarrow> BackendServer list \<Rightarrow> backend_ptr list \<Rightarrow> backend_ptr list" where
  "get_healthy_loop i [] result = result"
| "get_healthy_loop i (backend # rest) result =
     (if is_healthy backend
      then get_healthy_loop (Suc i) rest (result @ [i])
      else get_healthy_loop (Suc i) rest result)"

definition get_healthy_backends :: "BackendManager \<Rightarrow> backend_ptr list" where
  "get_healthy_backends m = get_healthy_loop 0 (backends m) []"

text \<open>\<open>update_health\<close>: guarded by \<open>index < backends_.size()\<close>, otherwise nothing happens.\<close>

definition update_health :: "time_point \<Rightarrow> nat \<Rightarrow> bool \<Rightarrow> BackendManager \<Rightarrow> BackendManager" where
  "update_health now index h m =
     (if index < length (backends m)
      then m\<lparr>backends := (backends m)
             [index := (backends m ! index)\<lparr>is_healthy := h, last_check := now\<rparr>]\<rparr>
      else m)"

definition backend_count :: "BackendManager \<Rightarrow> nat" where
  "backend_count m = length (backends m)"

section \<open>Round-robin routing policy (routing\_policy.hpp)\<close>

text \<open>
  \<open>counter_\<close> is a \<open>std::atomic<size_t>\<close>: a 64-bit word whose increment wraps.
  \<open>select\<close> returns a \<open>std::expected<BackendServer*, std::string>\<close>: \<open>Inl\<close> carries the
  error message, \<open>Inr\<close> the chosen pointer. The policy after the call is returned with it.
  \<open>fetch_add(1)\<close> yields the value the counter held before the addition, and that value
  is reduced modulo \<open>backends.size()\<close> (a \<open>size_t\<close>, so the vector's length as it is).
\<close>

record RoundRobinPolicy =
  counter :: "64 word"

definition RoundRobinPolicy_new :: RoundRobinPolicy where
  "RoundRobinPolicy_new = \<lparr>counter = 0\<rparr>"

definition fetch_add :: "64 word \<Rightarrow> RoundRobinPolicy \<Rightarrow> 64 word \<times> RoundRobinPolicy" where
  "fetch_add d p = (counter p, p\<lparr>counter := counter p + d\<rparr>)"

definition select :: "RoundRobinPolicy \<Rightarrow> backend_ptr list \<Rightarrow> (string + backend_ptr) \<times> RoundRobinPolicy" where
  "select p cands =
     (if cands = [] then (Inl ''No healthy backends available'', p)
      else (let (fetched, p') = fetch_add 1 p;
                index = unat fetched mod length cands
            in (Inr (cands ! index), p')))"

definition reset :: "RoundRobinPolicy \<Rightarrow> RoundRobinPolicy" where
  "reset p = p\<lparr>counter := 0\<rparr>"

text \<open>
  \<open>n\<close> consecutive calls of \<open>select\<close> on the same candidate vector, as the loop of the
  test \<open>RoundRobinDistribution\<close> makes them: the results in call order, and the policy
  after the last call.
\<close>

fun select_times :: "nat \<Rightarrow> RoundRobinPolicy \<Rightarrow> backend_ptr list \<Rightarrow> (string + backend_ptr) list \<times> RoundRobinPolicy" where
  "select_times 0 p cands = ([], p)"
| "select_times (Suc n) p cands =
     (let (r, p') = select p cands;
          (rs, p'') = select_times n p' cands
      in (r # rs, p''))"

section \<open>The HTTP client and server library, as the code uses it\<close>

text \<open>
  The transport (cpp-httplib) is outside the repository. Its \<open>Response\<close> is a status, a
  body and a multimap of headers whose keys compare without regard to case. A call of
  \<open>client.Get\<close> or \<open>client.Post\<close> ends in one of three ways: a result holding a response,
  an empty result (the connection failed or a timeout ran out), or an exception derived from
  \<open>std::exception\<close>, of which \<open>what()\<close> is kept. What the network does is an argument of
  every function that calls the client: \<open>client_call\<close> maps host, port and path to the
  outcome.
\<close>

record Response =
  status :: int
  body :: string
  headers :: "(string \<times> string) list"

datatype client_error = Connection | Timeout

datatype client_outcome = Responded Response | NoResult client_error | Raised string

type_synonym client_call = "string \<Rightarrow> 16 word \<Rightarrow> string \<Rightarrow> client_outcome"

text \<open>\<open>::tolower\<close> in the C locale: the letters A to Z move to a to z, every other byte stays.\<close>

definition tolower :: "char \<Rightarrow> char" where
  "tolower c =
     (case map_of (zip ''ABCDEFGHIJKLMNOPQRSTUVWXYZ'' ''abcdefghijklmnopqrstuvwxyz'') c of
        Some lower \<Rightarrow> lower
      | None \<Rightarrow> c)"

definition find_header :: "(string \<times> string) list \<Rightarrow> string \<Rightarrow> string option" where
  "find_header hs key = map_of (map (\<lambda>(k, v). (map tolower k, v)) hs) (map tolower key)"

definition set_header :: "string \<Rightarrow> string \<Rightarrow> Response \<Rightarrow> Response" where
  "set_header key val res = res\<lparr>headers := headers res @ [(key, val)]\<rparr>"

definition set_content :: "string \<Rightarrow> string \<Rightarrow> Response \<Rightarrow> Response" where
  "set_content s content_type res =
     set_header ''Content-Type'' content_type
       (res\<lparr>body := s,
            headers := filter (\<lambda>(k, v). map tolower k \<noteq> map tolower ''Content-Type'') (headers res)\<rparr>)"

section \<open>Health checker (health\_checker.cpp)\<close>

text \<open>
  \<open>check_backend_health\<close> is a \<open>try\<close> block with a handler for \<open>std::exception\<close>.
  \<open>check_backend_health_try\<close> is the block: \<open>Inl\<close> is an exception leaving it, \<open>Inr\<close>
  the value it returns, which is \<open>true\<close> only for \<open>res && res->status == 200\<close>.
  \<open>check_backend_health\<close> keeps the same result type, so that an exception which left the
  function would show as \<open>Inl\<close>; the handler turns every exception of the block into
  \<open>false\<close>. Calls of the logger write to the log only and are left out, here and below.
\<close>

definition check_backend_health_try :: "client_call \<Rightarrow> BackendServer \<Rightarrow> string + bool" where
  "check_backend_health_try client_get backend =
     (case client_get (host backend) (port backend) (health_endpoint backend) of
        Raised what \<Rightarrow> Inl what
      | NoResult err \<Rightarrow> Inr False
      | Responded res \<Rightarrow> if status res = 200 then Inr True else Inr False)"

definition check_backend_health :: "client_call \<Rightarrow> BackendServer \<Rightarrow> string + bool" where
  "check_backend_health client_get backend =
     (case check_backend_health_try client_get backend of
        Inl what \<Rightarrow> Inr False
      | Inr healthy \<Rightarrow> Inr healthy)"

text \<open>
  One pass of the \<open>while\<close> loop of \<open>health_check_loop\<close> sees the stop token at the top,
  sees it again before each probe, talks to the network and reads the clock for each
  \<open>update_health\<close>. These observations are the environment of the pass.
\<close>

record cycle_env =
  stop_at_top :: bool
  stop_before :: "nat \<Rightarrow> bool"
  net :: client_call
  clock :: "nat \<Rightarrow> time_point"

text \<open>
  The \<open>for\<close> loop over the snapshot \<open>backends\<close> taken by \<open>get_all_backends\<close>: \<open>i\<close> is the
  loop index and the list holds \<open>backends[i]\<close>, \<open>backends[i+1]\<close>, ... An exception leaving
  \<open>check_backend_health\<close> would leave the loop (\<open>Inl\<close>).
\<close>

fun probe_backends :: "cycle_env \<Rightarrow> nat \<Rightarrow> backend_ptr list \<Rightarrow> BackendManager \<Rightarrow> string + BackendManager" where
  "probe_backends env i [] m = Inr m"
| "probe_backends env i (backend # rest) m =
     (if stop_before env i then Inr m
      else (case check_backend_health (net env) (deref m backend) of
              Inl what \<Rightarrow> Inl what
            | Inr healthy \<Rightarrow> probe_backends env (Suc i) rest (update_health (clock env i) i healthy m)))"

definition health_check_cycle :: "cycle_env \<Rightarrow> BackendManager \<Rightarrow> string + BackendManager" where
  "health_check_cycle env m = probe_backends env 0 (get_all_backends m) m"

text \<open>
  The \<open>while\<close> loop, run against the environments of its first passes. It leaves through
  its condition (\<open>stopped\<close>) when the stop token is set at the top of a pass; when the
  environments run out the thread is still in the loop (\<open>running\<close>). \<open>Inl\<close> is an exception
  ending the loop.
\<close>

datatype loop_state = stopped | running

fun health_check_loop :: "cycle_env list \<Rightarrow> BackendManager \<Rightarrow> string + (loop_state \<times> BackendManager)" where
  "health_check_loop [] m = Inr (running, m)"
| "health_check_loop (env # envs) m =
     (if stop_at_top env then Inr (stopped, m)
      else (case health_check_cycle env m of
              Inl what \<Rightarrow> Inl what
            | Inr m' \<Rightarrow> health_check_loop envs m'))"

section \<open>Response injector (response\_injector.cpp)\<close>

text \<open>
  \<open>std::string::find\<close>: the first position at which the needle starts, \<open>None\<close> for
  \<open>npos\<close>.
\<close>

fun starts_with :: "string \<Rightarrow> string \<Rightarrow> bool" where
  "starts_with s [] = True"
| "starts_with [] (c # needle) = False"
| "starts_with (x # s) (c # needle) = (x = c \<and> starts_with s needle)"

fun find_at :: "nat \<Rightarrow> string \<Rightarrow> string \<Rightarrow> nat option" where
  "find_at i [] needle = (if needle = [] then Some i else None)"
| "find_at i (x # s) needle =
     (if starts_with (x # s) needle then Some i else find_at (Suc i) s needle)"

definition str_find :: "string \<Rightarrow> string \<Rightarrow> nat option" where
  "str_find s needle = find_at 0 s needle"

text \<open>
  \<open>std::regex_search\<close> for a pattern of literal characters under \<open>icase\<close>: the position of
  the leftmost place where the subject equals the pattern once both are case-folded.
\<close>

definition regex_search_icase :: "string \<Rightarrow> string \<Rightarrow> nat option" where
  "regex_search_icase s literal = str_find (map tolower s) (map tolower literal)"

text \<open>\<open>fmt::format("{}", n)\<close> for an unsigned number: its decimal digits.\<close>

fun format_decimal :: "nat \<Rightarrow> string" where
  "format_decimal n =
     (if n < 10 then [''0123456789'' ! n]
      else format_decimal (n div 10) @ [''0123456789'' ! (n mod 10)])"

definition get_content_type_main :: "string \<Rightarrow> string" where
  "get_content_type_main content_type =
     (let main_type = (case str_find content_type '';'' of
                         Some semicolon_pos \<Rightarrow> take semicolon_pos content_type
                       | None \<Rightarrow> content_type)
      in map tolower main_type)"

definition html_comment :: "16 word \<Rightarrow> string" where
  "html_comment backend_port =
     ''<!-- Served by backend server on port '' @ format_decimal (unat backend_port) @ '' -->''"

definition inject_html :: "string \<Rightarrow> 16 word \<Rightarrow> string" where
  "inject_html body_in backend_port =
     (let comment = html_comment backend_port
      in case regex_search_icase body_in ''</body>'' of
           Some pos \<Rightarrow> take pos body_in @ (comment @ [CHR 0x0A]) @ drop pos body_in
         | None \<Rightarrow> body_in @ ([CHR 0x0A] @ comment))"

definition inject_text :: "string \<Rightarrow> 16 word \<Rightarrow> string" where
  "inject_text body_in backend_port =
     body_in @ ([CHR 0x0A] @ ''[Served by backend server on port ''
                @ format_decimal (unat backend_port) @ '']'')"

text \<open>
  A value of \<open>nlohmann::json\<close>: null, a boolean, a number (a 64-bit signed integer, a 64-bit
  unsigned integer or a double, each kept as its 64 bits), a string, an array or an object.
  An object is a \<open>std::map\<close> from keys to values: an association list in the order of the
  keys (strings compared byte by byte), read with \<open>map_of\<close>.
  \<open>parse\<close> and \<open>dump\<close> belong to the library and are arguments of the functions that call
  them; either may end in a \<open>json::exception\<close>.
\<close>

datatype json =
    JNull
  | JBoolean bool
  | JNumberInteger "64 word"
  | JNumberUnsigned "64 word"
  | JNumberFloat "64 word"
  | JString string
  | JArray "json list"
  | JObject "(string \<times> json) list"

datatype json_exception = parse_error | invalid_iterator | type_error | out_of_range | other_error

type_synonym json_parse = "string \<Rightarrow> json_exception + json"
type_synonym json_dump = "json \<Rightarrow> json_exception + string"

fun is_object :: "json \<Rightarrow> bool" where
  "is_object (JObject members) = True"
| "is_object j = False"

text \<open>
  Assignment to the entry of a key in a \<open>std::map\<close>: the value of an entry that is there is
  replaced, a new entry goes to its place in the order of the keys.
\<close>

fun map_assign :: "string \<Rightarrow> 'v \<Rightarrow> (string \<times> 'v) list \<Rightarrow> (string \<times> 'v) list" where
  "map_assign key v [] = [(key, v)]"
| "map_assign key v ((k, w) # rest) =
     (if key = k then (key, v) # rest
      else if key < k then (key, v) # (k, w) # rest
      else (k, w) # map_assign key v rest)"

text \<open>
  \<open>j[key] = v\<close>: \<open>operator[]\<close> with a string key turns null into an empty object, gives the
  entry of the key in an object (a new entry when the key is not there) and throws
  \<open>type_error\<close> on every other value; the assignment then stores \<open>v\<close> in the entry.
\<close>

fun subscript_assign :: "json \<Rightarrow> string \<Rightarrow> json \<Rightarrow> json_exception + json" where
  "subscript_assign JNull key v = Inr (JObject (map_assign key v []))"
| "subscript_assign (JObject members) key v = Inr (JObject (map_assign key v members))"
| "subscript_assign j key v = Inl type_error"

definition server_name :: "16 word \<Rightarrow> json" where
  "server_name backend_port = JString (''backend-'' @ format_decimal (unat backend_port))"

text \<open>The statements of the \<open>try\<close> block of \<open>inject_json\<close> between \<open>parse\<close> and \<open>dump\<close>.\<close>

definition add_server_field :: "json \<Rightarrow> 16 word \<Rightarrow> json_exception + json" where
  "add_server_field j backend_port =
     (if is_object j then subscript_assign j ''_server'' (server_name backend_port)
      else (case subscript_assign JNull ''data'' j of
              Inl e \<Rightarrow> Inl e
            | Inr wrapped \<Rightarrow> subscript_assign wrapped ''_server'' (server_name backend_port)))"

definition inject_json_try :: "json_parse \<Rightarrow> json_dump \<Rightarrow> string \<Rightarrow> 16 word \<Rightarrow> json_exception + string" where
  "inject_json_try parse dump body_in backend_port =
     (case parse body_in of
        Inl e \<Rightarrow> Inl e
      | Inr j \<Rightarrow> (case add_server_field j backend_port of
                   Inl e \<Rightarrow> Inl e
                 | Inr j' \<Rightarrow> dump j'))"

text \<open>
  \<open>inject_json\<close> with its handler for \<open>json::exception\<close>. The result type keeps a place
  (\<open>Inl\<close>) for an exception leaving the function.
\<close>

definition inject_json :: "json_parse \<Rightarrow> json_dump \<Rightarrow> string \<Rightarrow> 16 word \<Rightarrow> json_exception + string" where
  "inject_json parse dump body_in backend_port =
     (case inject_json_try parse dump body_in backend_port of
        Inl e \<Rightarrow> Inr (inject_text body_in backend_port)
      | Inr s \<Rightarrow> Inr s)"

definition inject :: "json_parse \<Rightarrow> json_dump \<Rightarrow> string \<Rightarrow> string \<Rightarrow> 16 word \<Rightarrow> json_exception + string" where
  "inject parse dump body_in content_type backend_port =
     (let main_type = get_content_type_main content_type
      in if str_find main_type ''html'' \<noteq> None then Inr (inject_html body_in backend_port)
         else if str_find main_type ''json'' \<noteq> None then inject_json parse dump body_in backend_port
         else if str_find main_type ''text'' \<noteq> None then Inr (inject_text body_in backend_port)
         else Inr body_in)"

section \<open>Request router (request\_router.hpp) and request handlers (main.cpp)\<close>

text \<open>
  The router holds a shared pointer to the manager and owns the policy. The manager is
  shared with the health checker, so its state at the time of the call is an argument.
\<close>

definition select_backend :: "BackendManager \<Rightarrow> RoundRobinPolicy \<Rightarrow> (string + backend_ptr) \<times> RoundRobinPolicy" where
  "select_backend m p =
     (let healthy_backends = get_healthy_backends m
      in if healthy_backends = [] then (Inl ''No healthy backends available'', p)
         else select p healthy_backends)"

record Request =
  req_method :: string
  req_path :: string
  req_body :: string
  req_headers :: "(string \<times> string) list"
  remote_addr :: string

definition get_header_value :: "(string \<times> string) list \<Rightarrow> string \<Rightarrow> string" where
  "get_header_value hs key = (case find_header hs key of Some v \<Rightarrow> v | None \<Rightarrow> [])"

text \<open>
  Connections to backends are opened in one place only: a handler builds
  \<open>httplib::Client client(backend->host, backend->port)\<close> and sends the request with
  \<open>client.Get\<close> or \<open>client.Post\<close>. The state of the network is the log of the backends
  (host and port) to which a request was sent; \<open>client_request\<close> is that step: it appends
  the backend to the log and yields what the network answers.
\<close>

type_synonym connection_log = "(string \<times> 16 word) list"

definition client_request :: "(string \<Rightarrow> 16 word \<Rightarrow> client_outcome) \<Rightarrow> string \<Rightarrow> 16 word \<Rightarrow> connection_log \<Rightarrow> client_outcome \<times> connection_log" where
  "client_request call h pt log = (call h pt, log @ [(h, pt)])"

text \<open>
  What a handler leaves behind: the response given to the client, the policy after the
  call, and the connection log after the call.
\<close>

record handled =
  response :: Response
  policy_after :: RoundRobinPolicy
  connected_to :: connection_log

definition no_healthy_body :: string where
  \<open>no_healthy_body = ''{"error": "No healthy backends available"}''\<close>

definition connection_failed_body :: string where
  \<open>connection_failed_body = ''{"error": "Backend connection failed"}''\<close>

definition request_failed_body :: string where
  \<open>request_failed_body = ''{"error": "Backend request failed"}''\<close>

text \<open>
  The \<open>try\<close> block of a handler, from the outcome of the client call on: \<open>Inl\<close> is an
  exception leaving the block (thrown by the client, or by \<open>inject\<close>).
\<close>

definition forward_try :: "json_parse \<Rightarrow> json_dump \<Rightarrow> BackendServer \<Rightarrow> client_outcome \<Rightarrow> Response \<Rightarrow> string + Response" where
  "forward_try parse dump backend outcome res =
     (case outcome of
        Raised what \<Rightarrow> Inl what
      | NoResult err \<Rightarrow>
          Inr (set_content connection_failed_body ''application/json'' (res\<lparr>status := 503\<rparr>))
      | Responded backend_res \<Rightarrow>
          (let content_type = (case find_header (headers backend_res) ''Content-Type'' of
                                 Some v \<Rightarrow> v
                               | None \<Rightarrow> ''text/plain'')
           in case inject parse dump (body backend_res) content_type (port backend) of
                Inl e \<Rightarrow> Inl ''json::exception''
              | Inr injected_body \<Rightarrow>
                  (let res' = res\<lparr>status := status backend_res, body := injected_body,
                                  headers := headers backend_res\<rparr>
                   in Inr (if injected_body \<noteq> body backend_res
                           then set_header ''Content-Length''
                                  (format_decimal (length injected_body)) res'
                           else res'))))"

definition forward :: "json_parse \<Rightarrow> json_dump \<Rightarrow> BackendServer \<Rightarrow> client_outcome \<Rightarrow> Response \<Rightarrow> Response" where
  "forward parse dump backend outcome res =
     (case forward_try parse dump backend outcome res of
        Inl what \<Rightarrow> set_content request_failed_body ''application/json'' (res\<lparr>status := 503\<rparr>)
      | Inr res' \<Rightarrow> res')"

text \<open>
  The two handlers differ in the client call only. \<open>handle\<close> is their common text, with the
  call (from host and port to its outcome) as an argument. The last argument is the
  connection log before the request.
\<close>

definition handle :: "json_parse \<Rightarrow> json_dump \<Rightarrow> (string \<Rightarrow> 16 word \<Rightarrow> client_outcome) \<Rightarrow> BackendManager \<Rightarrow> RoundRobinPolicy \<Rightarrow> Response \<Rightarrow> connection_log \<Rightarrow> handled" where
  "handle parse dump call m p res log =
     (case select_backend m p of
        (Inl err, p') \<Rightarrow>
          \<lparr>response = set_content no_healthy_body ''application/json'' (res\<lparr>status := 503\<rparr>),
           policy_after = p', connected_to = log\<rparr>
      | (Inr backend_p, p') \<Rightarrow>
          (let backend = deref m backend_p;
               (outcome, log') = client_request call (host backend) (port backend) log
           in \<lparr>response = forward parse dump backend outcome res,
               policy_after = p',
               connected_to = log'\<rparr>))"

definition get_handler :: "json_parse \<Rightarrow> json_dump \<Rightarrow> client_call \<Rightarrow> BackendManager \<Rightarrow> RoundRobinPolicy \<Rightarrow> Request \<Rightarrow> Response \<Rightarrow> connection_log \<Rightarrow> handled" where
  "get_handler parse dump client_get m p req res log =
     handle parse dump (\<lambda>h pt. client_get h pt (req_path req)) m p res log"

definition post_handler :: "json_parse \<Rightarrow> json_dump \<Rightarrow> (string \<Rightarrow> 16 word \<Rightarrow> string \<Rightarrow> string \<Rightarrow> string \<Rightarrow> client_outcome) \<Rightarrow> BackendManager \<Rightarrow> RoundRobinPolicy \<Rightarrow> Request \<Rightarrow> Response \<Rightarrow> connection_log \<Rightarrow> handled" where
  "post_handler parse dump client_post m p req res log =
     handle parse dump
       (\<lambda>h pt. client_post h pt (req_path req) (req_body req)
                  (get_header_value (req_headers req) ''Content-Type''))
       m p res log"

section \<open>The fixture of the repository's tests\<close>

text \<open>
  \<open>test_backend_manager.cpp\<close> and \<open>test_routing_policy.cpp\<close> register three backends on
  localhost, ports 8080, 8081 and 8082. \<open>ports_of\<close> reads the ports behind a vector of
  pointers, as the tests do with \<open>->port\<close>.
\<close>

definition test_configs :: "BackendConfig list" where
  "test_configs =
     [\<lparr>cfg_host = ''localhost'', cfg_port = 8080, cfg_health_endpoint = ''/health''\<rparr>,
      \<lparr>cfg_host = ''localhost'', cfg_port = 8081, cfg_health_endpoint = ''/health''\<rparr>,
      \<lparr>cfg_host = ''localhost'', cfg_port = 8082, cfg_health_endpoint = ''/health''\<rparr>]"

definition ports_of :: "BackendManager \<Rightarrow> backend_ptr list \<Rightarrow> 16 word list" where
  "ports_of m ps = map (\<lambda>p. port (deref m p)) ps"


section \<open>Occurrences of a string in a string\<close>

text \<open>
  What "contains" means, independently of the search functions above: \<open>needle\<close> occurs in
  \<open>s\<close> at position \<open>k\<close>; and a closing body tag, in any mix of upper and lower case,
  occurs in \<open>s\<close> at position \<open>k\<close>.
\<close>

definition occurs_at :: "string \<Rightarrow> string \<Rightarrow> nat \<Rightarrow> bool" where
  "occurs_at s needle k \<longleftrightarrow> k + length needle \<le> length s \<and> take (length needle) (drop k s) = needle"

definition closing_body_tag_at :: "string \<Rightarrow> nat \<Rightarrow> bool" where
  "closing_body_tag_at s k \<longleftrightarrow> k + 7 \<le> length s \<and> map tolower (take 7 (drop k s)) = ''</body>''"

text \<open>
  The number a string of decimal digits stands for, read from the left; the code of the
  digit 0 is 48.
\<close>

definition decimal_value :: "string \<Rightarrow> nat" where
  "decimal_value s = foldl (\<lambda>acc c. 10 * acc + (of_char c - 48)) 0 s"

section \<open>Stand-ins for the library in concrete runs\<close>

text \<open>
  Concrete runs need a parser, a serialiser, a network, a response object and a registry.
  \<open>parse_stub\<close> knows the bodies used below, with the values the library parses them to,
  and rejects everything else. \<open>dump_stub\<close> writes a value the way \<open>dump()\<close> does, without
  white space and with the members of an object in their order; it covers strings that need
  no escaping and gives up on floating-point numbers. \<open>answers code\<close> is a network in which
  every backend answers with the status \<open>code\<close>. \<open>fresh_response\<close> is the response object
  as the server hands it to a handler. \<open>all_down\<close> is the registry of the test
  \<open>AllUnhealthy\<close>.
\<close>

definition parse_stub :: json_parse where
  \<open>parse_stub s =
     (if s = ''{"message":"Hello"}'' then Inr (JObject [(''message'', JString ''Hello'')])
      else if s = ''{"_server":"origin","message":"Hello"}''
        then Inr (JObject [(''_server'', JString ''origin''), (''message'', JString ''Hello'')])
      else if s = ''[1,2,3]''
        then Inr (JArray [JNumberUnsigned 1, JNumberUnsigned 2, JNumberUnsigned 3])
      else Inl parse_error)\<close>

definition all_texts :: "(json_exception + string) list \<Rightarrow> json_exception + string list" where
  "all_texts rs =
     foldr (\<lambda>r done. case r of
                        Inl e \<Rightarrow> Inl e
                      | Inr t \<Rightarrow> (case done of Inl e \<Rightarrow> Inl e | Inr ts \<Rightarrow> Inr (t # ts)))
       rs (Inr [])"

fun join_comma :: "string list \<Rightarrow> string" where
  "join_comma [] = []"
| "join_comma [s] = s"
| "join_comma (s # t # rest) = s @ '','' @ join_comma (t # rest)"

definition quoted :: "string \<Rightarrow> string" where
  "quoted s = [CHR 0x22] @ s @ [CHR 0x22]"

definition member_text :: "string \<times> (json_exception + string) \<Rightarrow> json_exception + string" where
  "member_text kr = (case snd kr of Inl e \<Rightarrow> Inl e | Inr s \<Rightarrow> Inr (quoted (fst kr) @ '':'' @ s))"

primrec dump_stub :: json_dump where
  "dump_stub JNull = Inr ''null''"
| "dump_stub (JBoolean b) = Inr (if b then ''true'' else ''false'')"
| "dump_stub (JNumberInteger w) =
     Inr (if sint w < 0 then ''-'' @ format_decimal (nat (- sint w)) else format_decimal (nat (sint w)))"
| "dump_stub (JNumberUnsigned w) = Inr (format_decimal (unat w))"
| "dump_stub (JNumberFloat w) = Inl other_error"
| "dump_stub (JString s) = Inr (quoted s)"
| "dump_stub (JArray xs) =
     (case all_texts (map dump_stub xs) of
        Inl e \<Rightarrow> Inl e
      | Inr ss \<Rightarrow> Inr (''['' @ join_comma ss @ '']''))"
| "dump_stub (JObject ms) =
     (case all_texts (map member_text (map (map_prod id dump_stub) ms)) of
        Inl e \<Rightarrow> Inl e
      | Inr ss \<Rightarrow> Inr (''{'' @ join_comma ss @ ''}''))"

definition all_down :: BackendManager where
  "all_down =
     update_health 3 2 False (update_health 2 1 False (update_health 1 0 False
       (BackendManager_new (\<lambda>k. k) test_configs)))"

definition fresh_response :: Response where
  "fresh_response = \<lparr>status = - 1, body = [], headers = []\<rparr>"

definition answers :: "int \<Rightarrow> client_call" where
  "answers code h pt path = Responded \<lparr>status = code, body = ''ok'', headers = []\<rparr>"

section \<open>Properties of the registry and of the routing policy\<close>

lemma get_all_loop_eq: "get_all_loop i bs result = result @ [i..<i + length bs]"
proof (induction bs arbitrary: i result)
  case Nil
  then show ?case by simp
next
  case (Cons b bs)
  have "[i..<i + length (b # bs)] = i # [Suc i..<Suc i + length bs]"
    using upt_conv_Cons [of i "i + length (b # bs)"] by simp
  with Cons show ?case by (simp del: upt_Suc)
qed

lemma get_healthy_loop_eq:
  "get_healthy_loop i bs result = result @ filter (\<lambda>p. is_healthy (bs ! (p - i))) [i..<i + length bs]"
proof (induction bs arbitrary: i result)
  case Nil
  then show ?case by simp
next
  case (Cons b bs)
  let ?r = "[Suc i..<Suc i + length bs]"
  have u: "[i..<i + length (b # bs)] = i # ?r"
    using upt_conv_Cons [of i "i + length (b # bs)"] by simp
  have f: "filter (\<lambda>p. is_healthy ((b # bs) ! (p - i))) ?r
         = filter (\<lambda>p. is_healthy (bs ! (p - Suc i))) ?r"
    by (rule filter_cong) (auto simp: nth_Cons')
  have "filter (\<lambda>p. is_healthy ((b # bs) ! (p - i))) [i..<i + length (b # bs)]
      = (if is_healthy b then [i] else []) @ filter (\<lambda>p. is_healthy (bs ! (p - Suc i))) ?r"
    unfolding u using f by simp
  moreover have "get_healthy_loop i (b # bs) result
      = result @ (if is_healthy b then [i] else []) @ filter (\<lambda>p. is_healthy (bs ! (p - Suc i))) ?r"
    by (simp add: Cons.IH)
  ultimately show ?case by simp
qed

lemma emplace_all_ports:
  "map port (emplace_all clk cfgs acc) = map port acc @ map cfg_port cfgs"
  by (induction cfgs arbitrary: acc) (simp_all add: BackendServer_new_def)

lemma get_all_backends_upt: "get_all_backends m = [0..<length (backends m)]"
  by (simp add: get_all_backends_def get_all_loop_eq)

lemma get_healthy_backends_filter:
  "get_healthy_backends m = filter (\<lambda>p. is_healthy (deref m p)) (get_all_backends m)"
  by (simp add: get_healthy_backends_def get_healthy_loop_eq get_all_backends_upt deref_def)

lemma select_nonempty:
  "cands \<noteq> [] \<Longrightarrow> select p cands =
     (Inr (cands ! (unat (counter p) mod length cands)), p\<lparr>counter := counter p + 1\<rparr>)"
  by (simp add: select_def fetch_add_def)

lemma select_times_eq:
  "cands \<noteq> [] \<Longrightarrow> select_times n p cands =
     (map (\<lambda>k. Inr (cands ! (unat (counter p + of_nat k) mod length cands))) [0..<n],
      p\<lparr>counter := counter p + of_nat n\<rparr>)"
proof (induction n arbitrary: p)
  case 0
  then show ?case by simp
next
  case (Suc n)
  have shift: "[0..<Suc n] = 0 # map Suc [0..<n]"
    by (simp add: upt_conv_Cons map_Suc_upt del: upt_Suc)
  show ?case
    using Suc.prems
    by (simp add: select_nonempty Suc.IH [OF Suc.prems] shift comp_def ac_simps del: upt_Suc)
qed

lemma test_manager_backends:
  "backends (BackendManager_new clk test_configs) =
     [BackendServer_new (clk 0) ''localhost'' 8080 ''/health'',
      BackendServer_new (clk 1) ''localhost'' 8081 ''/health'',
      BackendServer_new (clk 2) ''localhost'' 8082 ''/health'']"
  by (simp add: BackendManager_new_def test_configs_def numeral_2_eq_2)

lemma test_manager_healthy:
  "get_healthy_backends (BackendManager_new now test_configs) = [0, 1, 2]"
  by (simp add: get_healthy_backends_def test_manager_backends BackendServer_new_def)

lemma test_manager_ports:
  "ports_of (BackendManager_new now test_configs) [0, 1, 2] = [8080, 8081, 8082]"
  by (simp add: ports_of_def deref_def test_manager_backends BackendServer_new_def)

text \<open>
  Claim C1, as the code has it. On a non-empty candidate vector \<open>select\<close> adds one to the
  counter (wrapping at \<open>2^64\<close>) and returns the candidate at position
  \<open>c mod len(candidates)\<close>, where \<open>c\<close> is the value \<open>fetch_add\<close> returns: the value
  the counter held before the addition.
\<close>

theorem select_fetched_index:
  "cands \<noteq> [] \<Longrightarrow>
     select p cands =
       (Inr (cands ! (unat (counter p) mod length cands)), p\<lparr>counter := counter p + 1\<rparr>)"
  by (simp add: select_def fetch_add_def)

theorem select_fetched_index_witness:
  "[7, 8, 9] \<noteq> ([] :: backend_ptr list) \<and>
   select \<lparr>counter = 4\<rparr> [7, 8, 9] = (Inr 8, \<lparr>counter = 5\<rparr>)"
  using select_fetched_index [of "[7, 8, 9]" "\<lparr>counter = 4\<rparr>"] by simp

text \<open>
  Claim C1 as stated takes the value after the increment for the modulo. With the counter at
  0 and two candidates, \<open>select\<close> returns the candidate at position 0 and leaves the counter
  at 1; the value after the increment would give position 1.
\<close>

theorem select_post_increment_counterexample:
  "fst (select \<lparr>counter = 0\<rparr> [0, 1]) = Inr 0 \<and>
   counter (snd (select \<lparr>counter = 0\<rparr> [0, 1])) = 1 \<and>
   fst (select \<lparr>counter = 0\<rparr> [0, 1])
     \<noteq> Inr ([0, 1] ! (unat (counter (snd (select \<lparr>counter = 0\<rparr> [0, 1]))) mod length [0, 1 :: backend_ptr]))"
  by (simp add: select_def fetch_add_def)

text \<open>
  Claim C5. On an empty candidate vector \<open>select\<close> returns the error value with the message
  "No healthy backends available" and the policy is the one it was called on, so the next
  \<open>select\<close> on any vector gives what it would have given without the failed call.
\<close>

theorem select_empty_keeps_counter:
  "select p [] = (Inl ''No healthy backends available'', p) \<and>
   snd (select p []) = p \<and>
   select (snd (select p [])) cands = select p cands"
  by (simp add: select_def)

text \<open>
  Claim C2. With the counter at zero (after \<open>reset\<close>, or in a fresh policy), the \<open>k\<close>-th of
  \<open>n\<close> consecutive calls on a fixed non-empty vector (counting from 0) returns the
  candidate at position \<open>k mod len\<close>, for every run of up to \<open>2^64\<close> calls, the range of the
  counter; the first call after \<open>reset\<close> returns the first candidate; and on the three
  healthy backends of the test fixture nine calls return the ports
  8080, 8081, 8082, 8080, 8081, 8082, 8080, 8081, 8082.
\<close>

theorem round_robin_from_zero:
  "(cands \<noteq> [] \<longrightarrow> n \<le> 2 ^ 64 \<longrightarrow>
      fst (select_times n (reset p) cands) = map (\<lambda>k. Inr (cands ! (k mod length cands))) [0..<n] \<and>
      fst (select_times n RoundRobinPolicy_new cands) = map (\<lambda>k. Inr (cands ! (k mod length cands))) [0..<n]) \<and>
   (cands \<noteq> [] \<longrightarrow> fst (select (reset p) cands) = Inr (hd cands)) \<and>
   (let m = BackendManager_new now test_configs
    in map (map_sum id (\<lambda>b. port (deref m b)))
         (fst (select_times 9 RoundRobinPolicy_new (get_healthy_backends m)))
       = map Inr [8080, 8081, 8082, 8080, 8081, 8082, 8080, 8081, 8082])"
proof (intro conjI impI)
  assume ne: "cands \<noteq> []" and n: "n \<le> 2 ^ 64"
  have small: "unat (of_nat k :: 64 word) = k" if "k < n" for k
  proof -
    from that n have "k < 2 ^ LENGTH(64)" by simp
    then show ?thesis by (simp add: unat_of_nat)
  qed
  have "fst (select_times n q cands) = map (\<lambda>k. Inr (cands ! (k mod length cands))) [0..<n]"
    if "counter q = 0" for q
    using that small by (simp add: select_times_eq [OF ne])
  then show "fst (select_times n (reset p) cands) = map (\<lambda>k. Inr (cands ! (k mod length cands))) [0..<n]"
    and "fst (select_times n RoundRobinPolicy_new cands) = map (\<lambda>k. Inr (cands ! (k mod length cands))) [0..<n]"
    by (simp_all add: reset_def RoundRobinPolicy_new_def)
next
  assume "cands \<noteq> []"
  then show "fst (select (reset p) cands) = Inr (hd cands)"
    by (simp add: select_nonempty reset_def hd_conv_nth)
next
  show "let m = BackendManager_new now test_configs
    in map (map_sum id (\<lambda>b. port (deref m b)))
         (fst (select_times 9 RoundRobinPolicy_new (get_healthy_backends m)))
       = map Inr [8080, 8081, 8082, 8080, 8081, 8082, 8080, 8081, 8082]"
    by (simp add: Let_def test_manager_healthy select_times_eq RoundRobinPolicy_new_def upt_rec
        deref_def test_manager_backends BackendServer_new_def)
qed

theorem round_robin_from_zero_witness:
  "[4, 5] \<noteq> ([] :: backend_ptr list) \<and> (3 :: nat) \<le> 2 ^ 64 \<and>
   fst (select_times 3 (reset \<lparr>counter = 17\<rparr>) [4, 5]) = [Inr 4, Inr 5, Inr 4] \<and>
   fst (select (reset \<lparr>counter = 17\<rparr>) [4, 5]) = Inr 4"
  using round_robin_from_zero [of "[4, 5]" 3 "\<lparr>counter = 17\<rparr>" "\<lambda>k. k"]
  by (simp add: upt_rec)

text \<open>
  Claim C6. \<open>get_all_backends\<close> returns the pointers to all backends in insertion order
  (behind them are the ports of the configuration entries, in the order of the entries), and
  \<open>get_healthy_backends\<close> is that sequence filtered by the health flag, in the same
  order. In the test fixture, marking index 1 unhealthy leaves the healthy ports 8080, 8082,
  and marking it healthy again restores 8080, 8081, 8082.
\<close>

theorem listings_preserve_order:
  "get_all_backends m = [0..<backend_count m] \<and>
   map (deref m) (get_all_backends m) = backends m \<and>
   get_healthy_backends m = filter (\<lambda>p. is_healthy (deref m p)) (get_all_backends m) \<and>
   ports_of (BackendManager_new t0 cfgs) (get_all_backends (BackendManager_new t0 cfgs))
     = map cfg_port cfgs \<and>
   (let m0 = BackendManager_new t0 test_configs;
        m1 = update_health t1 1 False m0;
        m2 = update_health t2 1 True m1
    in ports_of m0 (get_all_backends m0) = [8080, 8081, 8082] \<and>
       ports_of m0 (get_healthy_backends m0) = [8080, 8081, 8082] \<and>
       ports_of m1 (get_all_backends m1) = [8080, 8081, 8082] \<and>
       ports_of m1 (get_healthy_backends m1) = [8080, 8082] \<and>
       ports_of m2 (get_healthy_backends m2) = [8080, 8081, 8082])"
proof (intro conjI)
  show "get_all_backends m = [0..<backend_count m]"
    by (simp add: get_all_backends_upt backend_count_def)
  show "map (deref m) (get_all_backends m) = backends m"
  proof -
    have "deref m = (!) (backends m)"
      by (rule ext) (simp add: deref_def)
    then show ?thesis
      by (simp add: get_all_backends_upt map_nth)
  qed
  show "get_healthy_backends m = filter (\<lambda>p. is_healthy (deref m p)) (get_all_backends m)"
    by (rule get_healthy_backends_filter)
  show "ports_of (BackendManager_new t0 cfgs) (get_all_backends (BackendManager_new t0 cfgs))
     = map cfg_port cfgs"
  proof -
    let ?m = "BackendManager_new t0 cfgs"
    have "deref ?m = (!) (backends ?m)"
      by (rule ext) (simp add: deref_def)
    then have all: "map (deref ?m) (get_all_backends ?m) = backends ?m"
      by (simp add: get_all_backends_upt map_nth)
    have "ports_of ?m (get_all_backends ?m) = map port (map (deref ?m) (get_all_backends ?m))"
      unfolding ports_of_def by (simp add: comp_def)
    then have "ports_of ?m (get_all_backends ?m) = map port (backends ?m)"
      unfolding all .
    then show ?thesis
      by (simp add: BackendManager_new_def emplace_all_ports)
  qed
  show "let m0 = BackendManager_new t0 test_configs;
        m1 = update_health t1 1 False m0;
        m2 = update_health t2 1 True m1
    in ports_of m0 (get_all_backends m0) = [8080, 8081, 8082] \<and>
       ports_of m0 (get_healthy_backends m0) = [8080, 8081, 8082] \<and>
       ports_of m1 (get_all_backends m1) = [8080, 8081, 8082] \<and>
       ports_of m1 (get_healthy_backends m1) = [8080, 8082] \<and>
       ports_of m2 (get_healthy_backends m2) = [8080, 8081, 8082]"
    by (simp add: Let_def ports_of_def deref_def get_all_backends_def get_healthy_backends_def
        update_health_def test_manager_backends BackendServer_new_def)
qed

text \<open>
  Claim C7. With \<open>index < backend_count()\<close>, \<open>update_health\<close> keeps the number of
  backends and their order, keeps every backend at another position as it is, and at
  \<open>index\<close> changes the health flag and the time stamp only. With
  \<open>index \<ge> backend_count()\<close> the manager is unchanged.
\<close>

theorem update_health_frame:
  "(index < backend_count m \<longrightarrow>
      (let m' = update_health now index h m
       in backend_count m' = backend_count m \<and>
          get_all_backends m' = get_all_backends m \<and>
          (\<forall>j < backend_count m. j \<noteq> index \<longrightarrow> deref m' j = deref m j) \<and>
          deref m' index = (deref m index)\<lparr>is_healthy := h, last_check := now\<rparr> \<and>
          host (deref m' index) = host (deref m index) \<and>
          port (deref m' index) = port (deref m index) \<and>
          health_endpoint (deref m' index) = health_endpoint (deref m index) \<and>
          is_healthy (deref m' index) = h \<and>
          last_check (deref m' index) = now)) \<and>
   (backend_count m \<le> index \<longrightarrow> update_health now index h m = m)"
  by (simp add: Let_def update_health_def backend_count_def deref_def get_all_backends_upt)

theorem update_health_frame_witness:
  "(let m = BackendManager_new (\<lambda>k. k) test_configs; m' = update_health 5 1 False m
    in (1 :: nat) < backend_count m \<and> backend_count m' = 3 \<and>
       deref m' 0 = deref m 0 \<and> deref m' 2 = deref m 2 \<and>
       deref m' 1 = \<lparr>host = ''localhost'', port = 8081, health_endpoint = ''/health'',
                       is_healthy = False, last_check = 5\<rparr>) \<and>
   (let m = BackendManager_new (\<lambda>k. k) test_configs
    in backend_count m \<le> 3 \<and> update_health 5 3 False m = m)"
  using update_health_frame [of 1 "BackendManager_new (\<lambda>k. k) test_configs" 5 False]
    update_health_frame [of 3 "BackendManager_new (\<lambda>k. k) test_configs" 5 False]
  by (simp add: Let_def backend_count_def test_manager_backends deref_def BackendServer_new_def)

section \<open>Properties of the string searches\<close>

lemma starts_with_iff:
  "starts_with s needle \<longleftrightarrow> length needle \<le> length s \<and> take (length needle) s = needle"
  by (induction s needle rule: starts_with.induct) auto

lemma starts_with_drop:
  "k \<le> length s \<Longrightarrow> starts_with (drop k s) needle \<longleftrightarrow> occurs_at s needle k"
  by (auto simp: starts_with_iff occurs_at_def)

lemma find_at_None:
  "find_at i s needle = None \<longleftrightarrow> (\<forall>k \<le> length s. \<not> starts_with (drop k s) needle)"
proof (induction s arbitrary: i)
  case Nil
  then show ?case by (cases needle) auto
next
  case (Cons x s)
  have "(\<forall>k \<le> length (x # s). \<not> starts_with (drop k (x # s)) needle)
        \<longleftrightarrow> \<not> starts_with (x # s) needle \<and> (\<forall>k \<le> length s. \<not> starts_with (drop k s) needle)"
    (is "?L \<longleftrightarrow> ?R")
  proof
    assume l: ?L
    have "\<not> starts_with (x # s) needle" using l [rule_format, of 0] by simp
    moreover have "\<not> starts_with (drop k s) needle" if "k \<le> length s" for k
      using l [rule_format, of "Suc k"] that by simp
    ultimately show ?R by blast
  next
    assume r: ?R
    show ?L
    proof (intro allI impI)
      fix k assume "k \<le> length (x # s)"
      then show "\<not> starts_with (drop k (x # s)) needle"
        using r by (cases k) auto
    qed
  qed
  then show ?case using Cons.IH by simp
qed

lemma find_at_Some:
  "find_at i s needle = Some p \<longleftrightarrow>
     i \<le> p \<and> p - i \<le> length s \<and> starts_with (drop (p - i) s) needle \<and>
     (\<forall>k < p - i. \<not> starts_with (drop k s) needle)"
proof (induction s arbitrary: i)
  case Nil
  then show ?case by (cases needle) auto
next
  case (Cons x s)
  show ?case
  proof (cases "starts_with (x # s) needle")
    case True
    have "p = i" if "i \<le> p" "\<forall>k < p - i. \<not> starts_with (drop k (x # s)) needle"
    proof (rule ccontr)
      assume "p \<noteq> i"
      with that(1) have "0 < p - i" by simp
      with that(2) have "\<not> starts_with (drop 0 (x # s)) needle" by blast
      with True show False by simp
    qed
    with True show ?thesis by auto
  next
    case False
    have "(i \<le> p \<and> p - i \<le> length (x # s) \<and> starts_with (drop (p - i) (x # s)) needle \<and>
           (\<forall>k < p - i. \<not> starts_with (drop k (x # s)) needle))
        \<longleftrightarrow> (Suc i \<le> p \<and> p - Suc i \<le> length s \<and> starts_with (drop (p - Suc i) s) needle \<and>
           (\<forall>k < p - Suc i. \<not> starts_with (drop k s) needle))" (is "?L \<longleftrightarrow> ?R")
    proof
      assume l: ?L
      have ne: "p \<noteq> i" using l False by auto
      then obtain d where d: "p - i = Suc d" using l by (cases "p - i") auto
      then have d': "p - Suc i = d" by simp
      have "\<not> starts_with (drop k s) needle" if "k < d" for k
      proof -
        from that d have "Suc k < p - i" by simp
        with l have "\<not> starts_with (drop (Suc k) (x # s)) needle" by blast
        then show ?thesis by simp
      qed
      with l d d' ne show ?R by auto
    next
      assume r: ?R
      then have d: "p - i = Suc (p - Suc i)" by auto
      have "\<not> starts_with (drop k (x # s)) needle" if "k < p - i" for k
      proof (cases k)
        case 0
        with False show ?thesis by simp
      next
        case (Suc k')
        with that d have "k' < p - Suc i" by simp
        with r Suc show ?thesis by simp
      qed
      with r d show ?L by auto
    qed
    with False Cons.IH [of "Suc i"] show ?thesis by simp
  qed
qed

lemma str_find_None: "str_find s needle = None \<longleftrightarrow> (\<forall>k. \<not> occurs_at s needle k)"
proof -
  have "(\<forall>k \<le> length s. \<not> starts_with (drop k s) needle) \<longleftrightarrow> (\<forall>k. \<not> occurs_at s needle k)"
  proof
    assume a: "\<forall>k \<le> length s. \<not> starts_with (drop k s) needle"
    show "\<forall>k. \<not> occurs_at s needle k"
    proof
      fix k
      show "\<not> occurs_at s needle k"
      proof (cases "k \<le> length s")
        case True
        with a show ?thesis by (simp add: starts_with_drop)
      next
        case False
        then show ?thesis by (simp add: occurs_at_def)
      qed
    qed
  next
    assume "\<forall>k. \<not> occurs_at s needle k"
    then show "\<forall>k \<le> length s. \<not> starts_with (drop k s) needle"
      by (simp add: starts_with_drop)
  qed
  then show ?thesis by (simp add: str_find_def find_at_None)
qed

lemma str_find_Some:
  "str_find s needle = Some p \<longleftrightarrow> occurs_at s needle p \<and> (\<forall>k < p. \<not> occurs_at s needle k)"
proof -
  have "(p \<le> length s \<and> starts_with (drop p s) needle \<and> (\<forall>k < p. \<not> starts_with (drop k s) needle))
      \<longleftrightarrow> (occurs_at s needle p \<and> (\<forall>k < p. \<not> occurs_at s needle k))" (is "?L \<longleftrightarrow> ?R")
  proof
    assume l: ?L
    then have "\<not> occurs_at s needle k" if "k < p" for k
      using that starts_with_drop [of k s needle] by auto
    with l starts_with_drop [of p s needle] show ?R by auto
  next
    assume r: ?R
    then have p: "p \<le> length s" by (simp add: occurs_at_def)
    with r have "\<not> starts_with (drop k s) needle" if "k < p" for k
      using that starts_with_drop [of k s needle] by auto
    with r p starts_with_drop [of p s needle] show ?L by auto
  qed
  then show ?thesis by (simp add: str_find_def find_at_Some)
qed

lemma tolower_body_tag: "map tolower ''</body>'' = ''</body>''"
  by (simp add: tolower_def)

lemma occurs_at_icase:
  "occurs_at (map tolower s) (map tolower ''</body>'') k \<longleftrightarrow> closing_body_tag_at s k"
proof -
  have l: "length (map tolower ''</body>'') = 7" by simp
  show ?thesis
    unfolding occurs_at_def closing_body_tag_at_def l
    by (simp only: tolower_body_tag take_map drop_map length_map)
qed

section \<open>Properties of the response injector\<close>

lemma inject_html_branch:
  "str_find (get_content_type_main ct) ''html'' \<noteq> None \<Longrightarrow>
     inject parse dump b ct backend_port = Inr (inject_html b backend_port)"
  by (simp add: inject_def Let_def)

lemma inject_json_branch:
  "str_find (get_content_type_main ct) ''html'' = None \<Longrightarrow>
   str_find (get_content_type_main ct) ''json'' \<noteq> None \<Longrightarrow>
     inject parse dump b ct backend_port = inject_json parse dump b backend_port"
  by (simp add: inject_def Let_def)

lemma regex_search_icase_None:
  "regex_search_icase s ''</body>'' = None \<longleftrightarrow> (\<forall>k. \<not> closing_body_tag_at s k)"
  unfolding regex_search_icase_def str_find_None occurs_at_icase ..

lemma regex_search_icase_Some:
  "regex_search_icase s ''</body>'' = Some pos \<longleftrightarrow>
     closing_body_tag_at s pos \<and> (\<forall>k < pos. \<not> closing_body_tag_at s k)"
  unfolding regex_search_icase_def str_find_Some occurs_at_icase ..

lemma find_at_char:
  "find_at i s [c] = (if c \<in> set s then Some (i + length (takeWhile (\<lambda>x. x \<noteq> c) s)) else None)"
  by (induction s arbitrary: i) auto

lemma get_content_type_main_takeWhile:
  "get_content_type_main ct = map tolower (takeWhile (\<lambda>c. c \<noteq> CHR '';'') ct)"
proof (cases "CHR '';'' \<in> set ct")
  case True
  have "take (length (takeWhile (\<lambda>c. c \<noteq> CHR '';'') ct)) ct = takeWhile (\<lambda>c. c \<noteq> CHR '';'') ct"
    by (rule takeWhile_eq_take [symmetric])
  with True show ?thesis
    by (simp add: get_content_type_main_def str_find_def find_at_char)
next
  case False
  then have "takeWhile (\<lambda>c. c \<noteq> CHR '';'') ct = ct"
    by auto
  moreover from False have "get_content_type_main ct = map tolower ct"
    by (simp add: get_content_type_main_def str_find_def find_at_char)
  ultimately show ?thesis by (simp only:)
qed

lemma digit_code: "d < 10 \<Longrightarrow> of_char (''0123456789'' ! d) = (48 + d :: nat)"
proof -
  assume "d < 10"
  then have "d \<in> {0, 1, 2, 3, 4, 5, 6, 7, 8, 9}" by auto
  then show ?thesis by auto
qed

lemma decimal_value_snoc: "decimal_value (s @ [c]) = 10 * decimal_value s + (of_char c - 48)"
  by (simp add: decimal_value_def)

lemma decimal_value_format: "decimal_value (format_decimal n) = n"
proof (induction n rule: format_decimal.induct)
  case (1 n)
  show ?case
  proof (cases "n < 10")
    case True
    then show ?thesis
      by (subst format_decimal.simps) (simp add: decimal_value_def digit_code)
  next
    case False
    have "n mod 10 < 10" by simp
    then have d: "of_char (''0123456789'' ! (n mod 10)) = (48 + n mod 10 :: nat)"
      by (rule digit_code)
    have "decimal_value (format_decimal n)
        = 10 * decimal_value (format_decimal (n div 10)) + (of_char (''0123456789'' ! (n mod 10)) - 48)"
      using False by (subst format_decimal.simps) (simp only: if_False decimal_value_snoc)
    also have "\<dots> = 10 * (n div 10) + n mod 10"
      using "1.IH" [OF False] d by simp
    finally show ?thesis by simp
  qed
qed

lemma inject_html_Some:
  "regex_search_icase b ''</body>'' = Some pos \<Longrightarrow>
     inject_html b backend_port =
       take pos b @ ''<!-- Served by backend server on port '' @ format_decimal (unat backend_port)
         @ '' -->'' @ [CHR 0x0A] @ drop pos b"
  unfolding inject_html_def html_comment_def Let_def by (simp only: option.case append_assoc)

lemma inject_html_None:
  "regex_search_icase b ''</body>'' = None \<Longrightarrow>
     inject_html b backend_port =
       b @ [CHR 0x0A] @ ''<!-- Served by backend server on port '' @ format_decimal (unat backend_port)
         @ '' -->''"
  unfolding inject_html_def html_comment_def Let_def by (simp only: option.case append_assoc)

text \<open>
  Claim C8. Let the main type of the content type contain "html", so that \<open>inject\<close> takes
  the markup rule. The comment is \<open><!-- Served by backend server on port N -->\<close>, where \<open>N\<close>
  is the port of the backend in decimal digits (the digits stand for the port, so the comment
  identifies the backend). If the body has a closing body tag in some mix of cases, the
  result is the body with the comment and a line feed put in at the first position where
  such a tag starts: the bytes before that position, the comment line, then the tag and the
  rest of the body, all as they were. If the body has no such tag, the result is the body, a
  line feed and the comment.
\<close>

theorem inject_html_at_first_closing_tag:
  "((\<exists>k. occurs_at (get_content_type_main ct) ''html'' k) \<longrightarrow>
     ((\<exists>k. closing_body_tag_at b k) \<longrightarrow>
        (\<exists>pos. closing_body_tag_at b pos \<and> (\<forall>k < pos. \<not> closing_body_tag_at b k) \<and>
           inject parse dump b ct backend_port =
             Inr (take pos b @ ''<!-- Served by backend server on port ''
                    @ format_decimal (unat backend_port) @ '' -->'' @ [CHR 0x0A] @ drop pos b))) \<and>
     ((\<forall>k. \<not> closing_body_tag_at b k) \<longrightarrow>
        inject parse dump b ct backend_port =
          Inr (b @ [CHR 0x0A] @ ''<!-- Served by backend server on port ''
                 @ format_decimal (unat backend_port) @ '' -->''))) \<and>
   decimal_value (format_decimal (unat backend_port)) = unat backend_port"
proof (intro impI conjI)
  show "decimal_value (format_decimal (unat backend_port)) = unat backend_port"
    by (rule decimal_value_format)
next
  assume "\<exists>k. occurs_at (get_content_type_main ct) ''html'' k"
  then have "str_find (get_content_type_main ct) ''html'' \<noteq> None"
    unfolding str_find_None by blast
  then have html: "inject parse dump b ct backend_port = Inr (inject_html b backend_port)"
    by (rule inject_html_branch)
  {
    assume "\<exists>k. closing_body_tag_at b k"
    then have "regex_search_icase b ''</body>'' \<noteq> None"
      unfolding regex_search_icase_None by blast
    then obtain pos where pos: "regex_search_icase b ''</body>'' = Some pos"
      by blast
    then have first: "closing_body_tag_at b pos \<and> (\<forall>k < pos. \<not> closing_body_tag_at b k)"
      unfolding regex_search_icase_Some .
    from html inject_html_Some [OF pos, of backend_port]
    have "inject parse dump b ct backend_port =
             Inr (take pos b @ ''<!-- Served by backend server on port ''
                    @ format_decimal (unat backend_port) @ '' -->'' @ [CHR 0x0A] @ drop pos b)"
      by (simp only:)
    with first
    show "\<exists>pos. closing_body_tag_at b pos \<and> (\<forall>k < pos. \<not> closing_body_tag_at b k) \<and>
           inject parse dump b ct backend_port =
             Inr (take pos b @ ''<!-- Served by backend server on port ''
                    @ format_decimal (unat backend_port) @ '' -->'' @ [CHR 0x0A] @ drop pos b)"
      by blast
  }
  {
    assume "\<forall>k. \<not> closing_body_tag_at b k"
    then have "regex_search_icase b ''</body>'' = None"
      unfolding regex_search_icase_None .
    from html inject_html_None [OF this, of backend_port]
    show "inject parse dump b ct backend_port =
          Inr (b @ [CHR 0x0A] @ ''<!-- Served by backend server on port ''
                 @ format_decimal (unat backend_port) @ '' -->'')"
      by (simp only:)
  }
qed

text \<open>
  Claim C10. The main type is the content type up to its first semicolon, in lower case. The
  buckets are tried in the order markup, structured, plain: a main type that contains "html"
  takes the markup rule whatever else it contains, and one that contains "json" and not
  "html" takes the structured rule. "text/html" and "text/json" both contain "text"; the
  first is handled by \<open>inject_html\<close>, the second by \<open>inject_json\<close>.
\<close>

theorem classification_order:
  "get_content_type_main ct = map tolower (takeWhile (\<lambda>c. c \<noteq> CHR '';'') ct) \<and>
   ((\<exists>k. occurs_at (get_content_type_main ct) ''html'' k) \<longrightarrow>
      inject parse dump b ct backend_port = Inr (inject_html b backend_port)) \<and>
   ((\<forall>k. \<not> occurs_at (get_content_type_main ct) ''html'' k) \<and>
    (\<exists>k. occurs_at (get_content_type_main ct) ''json'' k) \<longrightarrow>
      inject parse dump b ct backend_port = inject_json parse dump b backend_port) \<and>
   occurs_at (get_content_type_main ''text/html'') ''text'' 0 \<and>
   inject parse dump b ''text/html'' backend_port = Inr (inject_html b backend_port) \<and>
   occurs_at (get_content_type_main ''text/json'') ''text'' 0 \<and>
   inject parse dump b ''text/json'' backend_port = inject_json parse dump b backend_port"
proof (intro conjI impI)
  show "get_content_type_main ct = map tolower (takeWhile (\<lambda>c. c \<noteq> CHR '';'') ct)"
    by (rule get_content_type_main_takeWhile)
next
  assume "\<exists>k. occurs_at (get_content_type_main ct) ''html'' k"
  then show "inject parse dump b ct backend_port = Inr (inject_html b backend_port)"
    by (simp add: inject_html_branch str_find_None)
next
  assume "(\<forall>k. \<not> occurs_at (get_content_type_main ct) ''html'' k) \<and>
    (\<exists>k. occurs_at (get_content_type_main ct) ''json'' k)"
  then show "inject parse dump b ct backend_port = inject_json parse dump b backend_port"
    by (simp add: inject_json_branch str_find_None)
next
  have main: "get_content_type_main ''text/html'' = ''text/html''"
    by code_simp
  show "occurs_at (get_content_type_main ''text/html'') ''text'' 0"
    unfolding main by code_simp
  have "str_find ''text/html'' ''html'' = Some 5"
    by code_simp
  then show "inject parse dump b ''text/html'' backend_port = Inr (inject_html b backend_port)"
    by (simp add: inject_html_branch main)
next
  have main: "get_content_type_main ''text/json'' = ''text/json''"
    by code_simp
  show "occurs_at (get_content_type_main ''text/json'') ''text'' 0"
    unfolding main by code_simp
  have "str_find ''text/json'' ''html'' = None" "str_find ''text/json'' ''json'' = Some 5"
    by code_simp+
  then show "inject parse dump b ''text/json'' backend_port = inject_json parse dump b backend_port"
    by (simp add: inject_json_branch main)
qed

lemma map_of_map_assign: "map_of (map_assign key v ms) = (map_of ms)(key \<mapsto> v)"
  by (induction ms) (auto simp: fun_eq_iff)

lemma map_assign_keys: "set (map fst (map_assign key v ms)) = insert key (set (map fst ms))"
proof -
  have "dom (map_of (map_assign key v ms)) = insert key (dom (map_of ms))"
    by (simp add: map_of_map_assign)
  then show ?thesis by (simp add: dom_map_of_conv_image_fst)
qed

lemma map_assign_sorted:
  "sorted_wrt (<) (map fst ms) \<Longrightarrow> sorted_wrt (<) (map fst (map_assign key v ms))"
proof (induction ms)
  case Nil
  then show ?case by simp
next
  case (Cons kw ms)
  obtain k w where kw: "kw = (k, w)" by (cases kw)
  show ?case
  proof (cases "key = k")
    case True
    with Cons.prems kw show ?thesis by simp
  next
    case False
    show ?thesis
    proof (cases "key < k")
      case True
      with Cons.prems kw False show ?thesis by (auto intro: less_trans)
    next
      case nl: False
      with False have "k < key" by simp
      moreover have "sorted_wrt (<) (map fst (map_assign key v ms))"
        using Cons by simp
      moreover have "\<forall>x \<in> set (map fst (map_assign key v ms)). k < x"
        unfolding map_assign_keys using Cons.prems kw \<open>k < key\<close> by auto
      ultimately show ?thesis using kw False nl by auto
    qed
  qed
qed

lemma add_server_field_object:
  "add_server_field (JObject members) backend_port =
     Inr (JObject (map_assign ''_server''
            (JString (''backend-'' @ format_decimal (unat backend_port))) members))"
  by (simp add: add_server_field_def server_name_def)

lemma add_server_field_other:
  "\<not> is_object j \<Longrightarrow>
     add_server_field j backend_port =
       Inr (JObject [(''_server'', JString (''backend-'' @ format_decimal (unat backend_port))),
                     (''data'', j)])"
  by (simp add: add_server_field_def server_name_def)

lemma inject_json_returns: "\<exists>s. inject_json parse dump b backend_port = Inr s"
  by (cases "inject_json_try parse dump b backend_port") (simp_all add: inject_json_def)

lemma inject_text_eq:
  "inject_text b backend_port =
     b @ [CHR 0x0A] @ ''[Served by backend server on port '' @ format_decimal (unat backend_port) @ '']''"
  unfolding inject_text_def by (simp only: append_assoc)

text \<open>
  Claim C9, as the code has it. Let the content type take the structured rule. The
  identifier is the string \<open>backend-N\<close>, where \<open>N\<close> is the port of the backend in decimal
  digits. When the body parses to an object, the result is the serialisation of that object
  with the key \<open>_server\<close> bound to the identifier and every other key bound as before; when
  the object had no key \<open>_server\<close>, every key it had keeps its value and \<open>_server\<close> is the
  one new key. When the body parses to a value that is not an object, the result is the
  serialisation of a new object with that value under \<open>data\<close> and the identifier under
  \<open>_server\<close>. When parsing fails, the result is the body followed by a line feed and the
  trailer \<open>[Served by backend server on port N]\<close>. In every case \<open>inject\<close> returns a string
  and no exception leaves it.
\<close>

theorem inject_json_cases:
  "((\<forall>k. \<not> occurs_at (get_content_type_main ct) ''html'' k) \<and>
    (\<exists>k. occurs_at (get_content_type_main ct) ''json'' k) \<longrightarrow>
     (parse b = Inr (JObject members) \<and>
      dump (JObject (map_assign ''_server''
              (JString (''backend-'' @ format_decimal (unat backend_port))) members)) = Inr out \<longrightarrow>
        inject parse dump b ct backend_port = Inr out) \<and>
     (parse b = Inr j \<and> \<not> is_object j \<and>
      dump (JObject [(''_server'', JString (''backend-'' @ format_decimal (unat backend_port))),
                     (''data'', j)]) = Inr out' \<longrightarrow>
        inject parse dump b ct backend_port = Inr out') \<and>
     (parse b = Inl e \<longrightarrow>
        inject parse dump b ct backend_port =
          Inr (b @ [CHR 0x0A] @ ''[Served by backend server on port ''
                 @ format_decimal (unat backend_port) @ '']'')) \<and>
     (\<exists>s. inject parse dump b ct backend_port = Inr s)) \<and>
   map_of (map_assign ''_server'' ident members) = (map_of members)(''_server'' \<mapsto> ident) \<and>
   (map_of members ''_server'' = None \<longrightarrow>
      (\<forall>k v. map_of members k = Some v \<longrightarrow>
         map_of (map_assign ''_server'' ident members) k = Some v) \<and>
      dom (map_of (map_assign ''_server'' ident members))
        = insert ''_server'' (dom (map_of members)) \<and>
      ''_server'' \<notin> dom (map_of members)) \<and>
   (sorted_wrt (<) (map fst members) \<longrightarrow>
      sorted_wrt (<) (map fst (map_assign ''_server'' ident members))) \<and>
   decimal_value (format_decimal (unat backend_port)) = unat backend_port"
proof (intro conjI)
  show "map_of (map_assign ''_server'' ident members) = (map_of members)(''_server'' \<mapsto> ident)"
    by (rule map_of_map_assign)
  show "map_of members ''_server'' = None \<longrightarrow>
      (\<forall>k v. map_of members k = Some v \<longrightarrow>
         map_of (map_assign ''_server'' ident members) k = Some v) \<and>
      dom (map_of (map_assign ''_server'' ident members))
        = insert ''_server'' (dom (map_of members)) \<and>
      ''_server'' \<notin> dom (map_of members)"
    unfolding map_of_map_assign by auto
  show "sorted_wrt (<) (map fst members) \<longrightarrow>
      sorted_wrt (<) (map fst (map_assign ''_server'' ident members))"
    by (simp add: map_assign_sorted)
  show "decimal_value (format_decimal (unat backend_port)) = unat backend_port"
    by (rule decimal_value_format)
  show "(\<forall>k. \<not> occurs_at (get_content_type_main ct) ''html'' k) \<and>
    (\<exists>k. occurs_at (get_content_type_main ct) ''json'' k) \<longrightarrow>
     (parse b = Inr (JObject members) \<and>
      dump (JObject (map_assign ''_server''
              (JString (''backend-'' @ format_decimal (unat backend_port))) members)) = Inr out \<longrightarrow>
        inject parse dump b ct backend_port = Inr out) \<and>
     (parse b = Inr j \<and> \<not> is_object j \<and>
      dump (JObject [(''_server'', JString (''backend-'' @ format_decimal (unat backend_port))),
                     (''data'', j)]) = Inr out' \<longrightarrow>
        inject parse dump b ct backend_port = Inr out') \<and>
     (parse b = Inl e \<longrightarrow>
        inject parse dump b ct backend_port =
          Inr (b @ [CHR 0x0A] @ ''[Served by backend server on port ''
                 @ format_decimal (unat backend_port) @ '']'')) \<and>
     (\<exists>s. inject parse dump b ct backend_port = Inr s)"
  proof (intro impI)
    assume "(\<forall>k. \<not> occurs_at (get_content_type_main ct) ''html'' k) \<and>
      (\<exists>k. occurs_at (get_content_type_main ct) ''json'' k)"
    then have br: "inject parse dump b ct backend_port = inject_json parse dump b backend_port"
      by (simp add: inject_json_branch str_find_None)
    have obj: "inject_json parse dump b backend_port = Inr out"
      if "parse b = Inr (JObject members)"
        "dump (JObject (map_assign ''_server''
              (JString (''backend-'' @ format_decimal (unat backend_port))) members)) = Inr out"
      using that by (simp add: inject_json_def inject_json_try_def add_server_field_object)
    have other: "inject_json parse dump b backend_port = Inr out'"
      if "parse b = Inr j" "\<not> is_object j"
        "dump (JObject [(''_server'', JString (''backend-'' @ format_decimal (unat backend_port))),
                     (''data'', j)]) = Inr out'"
      using that by (simp add: inject_json_def inject_json_try_def add_server_field_other)
    have "inject_json parse dump b backend_port = Inr (inject_text b backend_port)"
      if "parse b = Inl e"
      using that by (simp add: inject_json_def inject_json_try_def)
    then have fail: "inject_json parse dump b backend_port =
          Inr (b @ [CHR 0x0A] @ ''[Served by backend server on port ''
                 @ format_decimal (unat backend_port) @ '']'')"
      if "parse b = Inl e"
      using that unfolding inject_text_eq by blast
    show "(parse b = Inr (JObject members) \<and>
      dump (JObject (map_assign ''_server''
              (JString (''backend-'' @ format_decimal (unat backend_port))) members)) = Inr out \<longrightarrow>
        inject parse dump b ct backend_port = Inr out) \<and>
     (parse b = Inr j \<and> \<not> is_object j \<and>
      dump (JObject [(''_server'', JString (''backend-'' @ format_decimal (unat backend_port))),
                     (''data'', j)]) = Inr out' \<longrightarrow>
        inject parse dump b ct backend_port = Inr out') \<and>
     (parse b = Inl e \<longrightarrow>
        inject parse dump b ct backend_port =
          Inr (b @ [CHR 0x0A] @ ''[Served by backend server on port ''
                 @ format_decimal (unat backend_port) @ '']'')) \<and>
     (\<exists>s. inject parse dump b ct backend_port = Inr s)"
      unfolding br using obj other fail inject_json_returns [of parse dump b backend_port]
      by blast
  qed
qed

text \<open>
  Claim C9 as stated has every existing key and value preserved and one key added. An object
  that already has the key \<open>_server\<close> comes out with the same keys and with the value of that
  key replaced.
\<close>

theorem add_server_field_overwrites_counterexample:
  "map_of [(''_server'', JString ''origin''), (''message'', JString ''Hello'')] ''_server''
     = Some (JString ''origin'') \<and>
   add_server_field (JObject [(''_server'', JString ''origin''), (''message'', JString ''Hello'')]) 8080
     = Inr (JObject [(''_server'', JString ''backend-8080''), (''message'', JString ''Hello'')])"
  by (simp add: add_server_field_def server_name_def)

lemma main_text_html: "get_content_type_main ''Text/HTML; charset=utf-8'' = ''text/html''"
  by (simp add: get_content_type_main_takeWhile tolower_def)

lemma main_app_json: "get_content_type_main ''application/json'' = ''application/json''"
  by (simp add: get_content_type_main_takeWhile tolower_def)

lemma no_html_in_app_json: "\<not> occurs_at ''application/json'' ''html'' k"
proof -
  have "str_find ''application/json'' ''html'' = None"
    by (simp add: str_find_def)
  then show ?thesis by (simp add: str_find_None)
qed

lemma tag_positions:
  "closing_body_tag_at ''<p></BODY>'' 3"
  "\<not> closing_body_tag_at ''<p></BODY>'' 0"
  "\<not> closing_body_tag_at ''<p></BODY>'' 1"
  "\<not> closing_body_tag_at ''<p></BODY>'' 2"
  by (simp_all add: closing_body_tag_at_def tolower_def)

theorem inject_html_at_first_closing_tag_witness:
  "occurs_at (get_content_type_main ''Text/HTML; charset=utf-8'') ''html'' 5 \<and>
   closing_body_tag_at ''<p></BODY>'' 3 \<and>
   inject parse_stub dump_stub ''<p></BODY>'' ''Text/HTML; charset=utf-8'' 8080
     = Inr (''<p><!-- Served by backend server on port 8080 -->'' @ [CHR 0x0A] @ ''</BODY>'') \<and>
   inject parse_stub dump_stub ''hello'' ''Text/HTML; charset=utf-8'' 8081
     = Inr (''hello'' @ [CHR 0x0A] @ ''<!-- Served by backend server on port 8081 -->'') \<and>
   decimal_value (format_decimal (unat (8081 :: 16 word))) = 8081"
proof -
  let ?ct = "''Text/HTML; charset=utf-8''"
  have h: "occurs_at (get_content_type_main ?ct) ''html'' 5"
    unfolding main_text_html by (simp add: occurs_at_def)
  then have ex: "\<exists>k. occurs_at (get_content_type_main ?ct) ''html'' k" ..
  have f0: "format_decimal (unat (8080 :: 16 word)) = ''8080''"
    and f1: "format_decimal (unat (8081 :: 16 word)) = ''8081''"
    by simp_all
  have none: "\<forall>k. \<not> closing_body_tag_at ''hello'' k"
    by (simp add: closing_body_tag_at_def)
  have tag: "\<exists>k. closing_body_tag_at ''<p></BODY>'' k"
    using tag_positions(1) ..
  note at_8080 = inject_html_at_first_closing_tag
    [where ct = ?ct and b = "''<p></BODY>''" and parse = parse_stub and dump = dump_stub
       and backend_port = 8080, THEN conjunct1, THEN mp, OF ex, THEN conjunct1, THEN mp, OF tag]
  note at_8081 = inject_html_at_first_closing_tag
    [where ct = ?ct and b = "''hello''" and parse = parse_stub and dump = dump_stub
       and backend_port = 8081]
  from at_8080
  obtain pos where pos: "closing_body_tag_at ''<p></BODY>'' pos"
      "\<forall>k < pos. \<not> closing_body_tag_at ''<p></BODY>'' k"
      "inject parse_stub dump_stub ''<p></BODY>'' ?ct 8080 =
         Inr (take pos ''<p></BODY>'' @ ''<!-- Served by backend server on port ''
                @ format_decimal (unat (8080 :: 16 word)) @ '' -->'' @ [CHR 0x0A]
                @ drop pos ''<p></BODY>'')"
    by blast
  have "\<not> 3 < pos" using pos(2) tag_positions(1) by blast
  moreover have "pos \<noteq> 0" "pos \<noteq> 1" "pos \<noteq> 2"
    using pos(1) tag_positions(2-4) by metis+
  ultimately have "pos = 3" by arith
  with pos(3) have first: "inject parse_stub dump_stub ''<p></BODY>'' ?ct 8080
     = Inr (''<p><!-- Served by backend server on port 8080 -->'' @ [CHR 0x0A] @ ''</BODY>'')"
    unfolding f0 by simp
  have "inject parse_stub dump_stub ''hello'' ?ct 8081
     = Inr (''hello'' @ [CHR 0x0A] @ ''<!-- Served by backend server on port ''
              @ format_decimal (unat (8081 :: 16 word)) @ '' -->'')"
    by (rule at_8081 [THEN conjunct1, THEN mp, OF ex, THEN conjunct2, THEN mp, OF none])
  moreover have dv: "decimal_value (format_decimal (unat (8081 :: 16 word))) = unat (8081 :: 16 word)"
    by (rule at_8081 [THEN conjunct2])
  ultimately have second: "inject parse_stub dump_stub ''hello'' ?ct 8081
     = Inr (''hello'' @ [CHR 0x0A] @ ''<!-- Served by backend server on port 8081 -->'')"
    unfolding f1 by simp
  from dv have "decimal_value (format_decimal (unat (8081 :: 16 word))) = 8081"
    by simp
  with h tag_positions(1) first second show ?thesis by (intro conjI)
qed

theorem classification_order_witness:
  "occurs_at (get_content_type_main ''Text/HTML; charset=utf-8'') ''html'' 5 \<and>
   inject parse_stub dump_stub ''hello'' ''Text/HTML; charset=utf-8'' 8080
     = Inr (inject_html ''hello'' 8080) \<and>
   occurs_at (get_content_type_main ''application/json'') ''json'' 12 \<and>
   inject parse_stub dump_stub ''hello'' ''application/json'' 8080
     = inject_json parse_stub dump_stub ''hello'' 8080"
proof -
  have h: "occurs_at (get_content_type_main ''Text/HTML; charset=utf-8'') ''html'' 5"
    unfolding main_text_html by (simp add: occurs_at_def)
  have j: "occurs_at (get_content_type_main ''application/json'') ''json'' 12"
    unfolding main_app_json by (simp add: occurs_at_def)
  have nh: "\<forall>k. \<not> occurs_at (get_content_type_main ''application/json'') ''html'' k"
    unfolding main_app_json using no_html_in_app_json by blast
  from classification_order [of "''Text/HTML; charset=utf-8''" parse_stub dump_stub "''hello''" 8080] h
  have a: "inject parse_stub dump_stub ''hello'' ''Text/HTML; charset=utf-8'' 8080
     = Inr (inject_html ''hello'' 8080)"
    by blast
  from classification_order [of "''application/json''" parse_stub dump_stub "''hello''" 8080] j nh
  have b: "inject parse_stub dump_stub ''hello'' ''application/json'' 8080
     = inject_json parse_stub dump_stub ''hello'' 8080"
    by blast
  from h a j b show ?thesis by blast
qed

theorem inject_json_cases_witness:
  \<open>occurs_at (get_content_type_main ''application/json'') ''json'' 12 \<and>
   inject parse_stub dump_stub ''{"message":"Hello"}'' ''application/json'' 8082
     = Inr ''{"_server":"backend-8082","message":"Hello"}'' \<and>
   inject parse_stub dump_stub ''{"_server":"origin","message":"Hello"}'' ''application/json'' 8080
     = Inr ''{"_server":"backend-8080","message":"Hello"}'' \<and>
   inject parse_stub dump_stub ''[1,2,3]'' ''application/json'' 8083
     = Inr ''{"_server":"backend-8083","data":[1,2,3]}'' \<and>
   inject parse_stub dump_stub ''{invalid json}'' ''application/json'' 8087
     = Inr (''{invalid json}'' @ [CHR 0x0A] @ ''[Served by backend server on port 8087]'')\<close>
proof -
  let ?ct = "''application/json''"
  let ?b1 = \<open>''{"message":"Hello"}''\<close>
  let ?b2 = \<open>''{"_server":"origin","message":"Hello"}''\<close>
  let ?o1 = \<open>''{"_server":"backend-8082","message":"Hello"}''\<close>
  let ?o2 = \<open>''{"_server":"backend-8080","message":"Hello"}''\<close>
  let ?o3 = \<open>''{"_server":"backend-8083","data":[1,2,3]}''\<close>
  let ?m1 = "[(''message'', JString ''Hello'')]"
  let ?m2 = "[(''_server'', JString ''origin''), (''message'', JString ''Hello'')]"
  let ?arr = "JArray [JNumberUnsigned 1, JNumberUnsigned 2, JNumberUnsigned 3]"
  have j: "occurs_at (get_content_type_main ?ct) ''json'' 12"
    unfolding main_app_json by (simp add: occurs_at_def)
  have hyp: "(\<forall>k. \<not> occurs_at (get_content_type_main ?ct) ''html'' k) \<and>
             (\<exists>k. occurs_at (get_content_type_main ?ct) ''json'' k)"
    using j no_html_in_app_json unfolding main_app_json by blast
  have p1: "parse_stub ?b1 = Inr (JObject ?m1)"
    and p2: "parse_stub ?b2 = Inr (JObject ?m2)"
    and p3: "parse_stub ''[1,2,3]'' = Inr ?arr"
    and p4: "parse_stub ''{invalid json}'' = Inl parse_error"
    by (simp_all add: parse_stub_def)
  have d1: "dump_stub (JObject (map_assign ''_server''
              (JString (''backend-'' @ format_decimal (unat (8082 :: 16 word)))) ?m1)) = Inr ?o1"
    by (simp add: member_text_def quoted_def all_texts_def)
  have d2: "dump_stub (JObject (map_assign ''_server''
              (JString (''backend-'' @ format_decimal (unat (8080 :: 16 word)))) ?m2)) = Inr ?o2"
    by (simp add: member_text_def quoted_def all_texts_def)
  have d3: "dump_stub (JObject [(''_server'', JString (''backend-'' @ format_decimal (unat (8083 :: 16 word)))),
                     (''data'', ?arr)]) = Inr ?o3"
    by (simp add: member_text_def quoted_def all_texts_def)
  have no: "\<not> is_object ?arr" by simp
  have f: "format_decimal (unat (8087 :: 16 word)) = ''8087''" by simp
  have a: "inject parse_stub dump_stub ?b1 ?ct 8082 = Inr ?o1"
    by (rule inject_json_cases
          [where ct = ?ct and parse = parse_stub and dump = dump_stub
             and b = ?b1 and members = ?m1 and backend_port = 8082 and out = ?o1,
           THEN conjunct1, THEN mp, OF hyp, THEN conjunct1, THEN mp, OF conjI [OF p1 d1]])
  have b: "inject parse_stub dump_stub ?b2 ?ct 8080 = Inr ?o2"
    by (rule inject_json_cases
          [where ct = ?ct and parse = parse_stub and dump = dump_stub
             and b = ?b2 and members = ?m2 and backend_port = 8080 and out = ?o2,
           THEN conjunct1, THEN mp, OF hyp, THEN conjunct1, THEN mp, OF conjI [OF p2 d2]])
  have c: "inject parse_stub dump_stub ''[1,2,3]'' ?ct 8083 = Inr ?o3"
    by (rule inject_json_cases
          [where ct = ?ct and parse = parse_stub and dump = dump_stub
             and b = "''[1,2,3]''" and j = ?arr and backend_port = 8083 and out' = ?o3,
           THEN conjunct1, THEN mp, OF hyp, THEN conjunct2, THEN conjunct1, THEN mp,
           OF conjI [OF p3 conjI [OF no d3]]])
  have "inject parse_stub dump_stub ''{invalid json}'' ?ct 8087
     = Inr (''{invalid json}'' @ [CHR 0x0A] @ ''[Served by backend server on port ''
              @ format_decimal (unat (8087 :: 16 word)) @ '']'')"
    by (rule inject_json_cases
          [where ct = ?ct and parse = parse_stub and dump = dump_stub
             and b = "''{invalid json}''" and e = parse_error and backend_port = 8087,
           THEN conjunct1, THEN mp, OF hyp, THEN conjunct2, THEN conjunct2, THEN conjunct1,
           THEN mp, OF p4])
  then have d: "inject parse_stub dump_stub ''{invalid json}'' ?ct 8087
     = Inr (''{invalid json}'' @ [CHR 0x0A] @ ''[Served by backend server on port 8087]'')"
    unfolding f by simp
  from j a b c d show ?thesis by (intro conjI)
qed

section \<open>Properties of the health checker and of the request handlers\<close>

lemma check_backend_health_eq:
  "check_backend_health client_get b =
     Inr (case client_get (host b) (port b) (health_endpoint b) of
            Responded res \<Rightarrow> status res = 200
          | NoResult err \<Rightarrow> False
          | Raised what \<Rightarrow> False)"
  by (simp add: check_backend_health_def check_backend_health_try_def split: client_outcome.split)

lemma probe_backends_returns: "\<exists>m'. probe_backends env i ps m = Inr m'"
  by (induction ps arbitrary: i m) (simp_all add: check_backend_health_eq)

lemma health_check_cycle_returns: "\<exists>m'. health_check_cycle env m = Inr m'"
  by (simp add: health_check_cycle_def probe_backends_returns)

lemma health_check_loop_returns: "\<exists>r. health_check_loop envs m = Inr r"
proof (induction envs arbitrary: m)
  case Nil
  then show ?case by simp
next
  case (Cons env envs)
  obtain m' where "health_check_cycle env m = Inr m'"
    using health_check_cycle_returns by blast
  with Cons.IH [of m'] show ?case by simp
qed

lemma health_check_loop_stopped:
  "health_check_loop envs m = Inr (stopped, m') \<Longrightarrow> \<exists>env \<in> set envs. stop_at_top env"
proof (induction envs arbitrary: m)
  case Nil
  then show ?case by simp
next
  case (Cons env envs)
  show ?case
  proof (cases "stop_at_top env")
    case True
    then show ?thesis by simp
  next
    case False
    obtain m1 where "health_check_cycle env m = Inr m1"
      using health_check_cycle_returns by blast
    with False Cons.prems have "health_check_loop envs m1 = Inr (stopped, m')" by simp
    from Cons.IH [OF this] show ?thesis by simp
  qed
qed

text \<open>
  Claim C3, as the code has it. A probe that gets a response is healthy exactly when the
  status is 200; a probe without a result (connection failure or timeout) and a probe that
  throws are unhealthy. \<open>check_backend_health\<close> always returns a value, one pass over the
  backends always completes, and the loop never ends with an exception: it ends only when
  the stop token was set at the top of a pass.
\<close>

theorem probe_outcomes_never_escape:
  "(client_get (host b) (port b) (health_endpoint b) = Responded res \<longrightarrow>
      check_backend_health client_get b = Inr (status res = 200)) \<and>
   (client_get (host b) (port b) (health_endpoint b) = NoResult err \<longrightarrow>
      check_backend_health client_get b = Inr False) \<and>
   (client_get (host b) (port b) (health_endpoint b) = Raised what \<longrightarrow>
      check_backend_health client_get b = Inr False) \<and>
   (\<exists>healthy. check_backend_health client_get b = Inr healthy) \<and>
   (\<exists>m'. health_check_cycle env m = Inr m') \<and>
   (\<exists>r. health_check_loop envs m = Inr r) \<and>
   (health_check_loop envs m = Inr (stopped, m'') \<longrightarrow> (\<exists>env \<in> set envs. stop_at_top env))"
  using health_check_cycle_returns [of env m] health_check_loop_returns [of envs m]
    health_check_loop_stopped [of envs m m'']
  by (simp add: check_backend_health_eq)

text \<open>
  Claim C3 as stated calls every 2xx status healthy. A backend answering 204 is classified
  unhealthy.
\<close>

theorem status_204_unhealthy_counterexample:
  "check_backend_health (answers 204) (BackendServer_new 0 ''localhost'' 8080 ''/health'') = Inr False"
  by (simp add: check_backend_health_eq answers_def)

lemma no_healthy_backends:
  "\<forall>b \<in> set (backends m). \<not> is_healthy b \<Longrightarrow> get_healthy_backends m = []"
  by (simp add: get_healthy_backends_filter get_all_backends_upt deref_def filter_empty_conv)

lemma handle_no_healthy:
  "\<forall>b \<in> set (backends m). \<not> is_healthy b \<Longrightarrow>
     handle parse dump call m p res log =
       \<lparr>response = set_content no_healthy_body ''application/json'' (res\<lparr>status := 503\<rparr>),
        policy_after = p, connected_to = log\<rparr>"
  by (simp add: handle_def select_backend_def no_healthy_backends)

lemma handle_some_healthy:
  "get_healthy_backends m \<noteq> [] \<Longrightarrow>
     length (connected_to (handle parse dump call m p res log)) = Suc (length log)"
  by (simp add: handle_def select_backend_def select_nonempty client_request_def Let_def)

lemma set_content_status_body:
  "status (set_content s ct res) = status res" "body (set_content s ct res) = s"
  by (simp_all add: set_content_def set_header_def)

lemma all_down_flags: "map is_healthy (backends all_down) = [False, False, False]"
  by (simp add: all_down_def update_health_def test_manager_backends BackendServer_new_def)

lemma all_down_unhealthy: "\<forall>b \<in> set (backends all_down). \<not> is_healthy b"
proof -
  have "set (map is_healthy (backends all_down)) = {False}"
    unfolding all_down_flags by simp
  then show ?thesis by auto
qed

text \<open>
  Claim C4. When no registered backend has its health flag set, the GET handler and the POST
  handler answer with status 503 and the error body with the message "No healthy backends
  available" (the code writes it \<open>{"error": "No healthy backends available"}\<close>), the
  connection log is the one before the request, and the response, the policy and the log do
  not depend on what the network would have answered: no connection to a backend is
  attempted. The counter of the policy is left as it was. For comparison, when there is a
  healthy backend a handler extends the connection log by one entry.
\<close>

theorem all_unhealthy_gives_503:
  \<open>((\<forall>b \<in> set (backends m). \<not> is_healthy b) \<longrightarrow>
     (let h = get_handler parse dump client_get m p req res log
      in status (response h) = 503 \<and>
         body (response h) = ''{"error": "No healthy backends available"}'' \<and>
         connected_to h = log \<and> policy_after h = p) \<and>
     (let h = post_handler parse dump client_post m p req res log
      in status (response h) = 503 \<and>
         body (response h) = ''{"error": "No healthy backends available"}'' \<and>
         connected_to h = log \<and> policy_after h = p) \<and>
     get_handler parse dump client_get m p req res log
       = get_handler parse dump client_get' m p req res log \<and>
     post_handler parse dump client_post m p req res log
       = post_handler parse dump client_post' m p req res log) \<and>
   (get_healthy_backends m \<noteq> [] \<longrightarrow>
     length (connected_to (get_handler parse dump client_get m p req res log)) = Suc (length log) \<and>
     length (connected_to (post_handler parse dump client_post m p req res log)) = Suc (length log))\<close>
  by (simp add: get_handler_def post_handler_def handle_no_healthy handle_some_healthy
      set_content_status_body no_healthy_body_def Let_def)

theorem all_unhealthy_gives_503_witness:
  \<open>map is_healthy (backends all_down) = [False, False, False] \<and>
   (let h = get_handler parse_stub dump_stub (answers 200) all_down \<lparr>counter = 5\<rparr>
              \<lparr>req_method = ''GET'', req_path = ''/'', req_body = [], req_headers = [],
               remote_addr = ''127.0.0.1''\<rparr> fresh_response [(''localhost'', 8081)]
    in status (response h) = 503 \<and>
       body (response h) = ''{"error": "No healthy backends available"}'' \<and>
       connected_to h = [(''localhost'', 8081)] \<and> policy_after h = \<lparr>counter = 5\<rparr>) \<and>
   get_healthy_backends (BackendManager_new (\<lambda>k. k) test_configs) = [0, 1, 2] \<and>
   length (connected_to (get_handler parse_stub dump_stub (answers 200)
              (BackendManager_new (\<lambda>k. k) test_configs) \<lparr>counter = 5\<rparr>
              \<lparr>req_method = ''GET'', req_path = ''/'', req_body = [], req_headers = [],
               remote_addr = ''127.0.0.1''\<rparr> fresh_response [(''localhost'', 8081)])) = 2\<close>
proof -
  let ?req = "\<lparr>req_method = ''GET'', req_path = ''/'', req_body = [], req_headers = [],
               remote_addr = ''127.0.0.1''\<rparr>"
  let ?log = "[(''localhost'', 8081 :: 16 word)]"
  let ?up = "BackendManager_new (\<lambda>k. k) test_configs"
  have up: "get_healthy_backends ?up = [0, 1, 2]"
    by (rule test_manager_healthy)
  then have ne: "get_healthy_backends ?up \<noteq> []" by simp
  from all_unhealthy_gives_503 [of all_down parse_stub dump_stub "answers 200" "\<lparr>counter = 5\<rparr>"
      ?req fresh_response ?log] all_down_unhealthy
  have down: \<open>let h = get_handler parse_stub dump_stub (answers 200) all_down \<lparr>counter = 5\<rparr>
                ?req fresh_response ?log
    in status (response h) = 503 \<and>
       body (response h) = ''{"error": "No healthy backends available"}'' \<and>
       connected_to h = ?log \<and> policy_after h = \<lparr>counter = 5\<rparr>\<close>
    by blast
  from all_unhealthy_gives_503 [of ?up parse_stub dump_stub "answers 200" "\<lparr>counter = 5\<rparr>"
      ?req fresh_response ?log] ne
  have "length (connected_to (get_handler parse_stub dump_stub (answers 200) ?up \<lparr>counter = 5\<rparr>
                ?req fresh_response ?log)) = Suc (length ?log)"
    by blast
  then have "length (connected_to (get_handler parse_stub dump_stub (answers 200) ?up \<lparr>counter = 5\<rparr>
                ?req fresh_response ?log)) = 2"
    by simp
  with down up all_down_flags show ?thesis by blast
qed

theorem probe_outcomes_never_escape_witness:
  "(let b = BackendServer_new 0 ''localhost'' 8080 ''/health''
    in answers 200 (host b) (port b) (health_endpoint b)
         = Responded \<lparr>status = 200, body = ''ok'', headers = []\<rparr> \<and>
       check_backend_health (answers 200) b = Inr True \<and>
       check_backend_health (answers 404) b = Inr False \<and>
       check_backend_health (\<lambda>h pt path. NoResult Connection) b = Inr False \<and>
       check_backend_health (\<lambda>h pt path. NoResult Timeout) b = Inr False \<and>
       check_backend_health (\<lambda>h pt path. Raised ''boom'') b = Inr False) \<and>
   health_check_loop
     [\<lparr>stop_at_top = False, stop_before = (\<lambda>i. False), net = (\<lambda>h pt path. Raised ''boom''),
       clock = (\<lambda>i. 7)\<rparr>,
      \<lparr>stop_at_top = True, stop_before = (\<lambda>i. False), net = answers 200, clock = (\<lambda>i. 9)\<rparr>]
     (BackendManager_new (\<lambda>k. k) test_configs)
   = Inr (stopped, \<lparr>backends =
       [\<lparr>host = ''localhost'', port = 8080, health_endpoint = ''/health'', is_healthy = False, last_check = 7\<rparr>,
        \<lparr>host = ''localhost'', port = 8081, health_endpoint = ''/health'', is_healthy = False, last_check = 7\<rparr>,
        \<lparr>host = ''localhost'', port = 8082, health_endpoint = ''/health'', is_healthy = False, last_check = 7\<rparr>]\<rparr>)"
proof -
  let ?b = "BackendServer_new 0 ''localhost'' 8080 ''/health''"
  let ?r200 = "\<lparr>status = 200, body = ''ok'', headers = []\<rparr>"
  let ?r404 = "\<lparr>status = 404, body = ''ok'', headers = []\<rparr>"
  let ?envs = "[\<lparr>stop_at_top = False, stop_before = (\<lambda>i. False), net = (\<lambda>h pt path. Raised ''boom''),
       clock = (\<lambda>i. 7)\<rparr>,
      \<lparr>stop_at_top = True, stop_before = (\<lambda>i. False), net = answers 200, clock = (\<lambda>i. 9)\<rparr>]"
  have a: "answers 200 (host ?b) (port ?b) (health_endpoint ?b) = Responded ?r200"
    and a': "answers 404 (host ?b) (port ?b) (health_endpoint ?b) = Responded ?r404"
    by (simp_all add: answers_def)
  have "check_backend_health (answers 200) ?b = Inr True"
    using probe_outcomes_never_escape [of "answers 200" ?b ?r200] a by simp
  moreover have "check_backend_health (answers 404) ?b = Inr False"
    using probe_outcomes_never_escape [of "answers 404" ?b ?r404] a' by simp
  moreover have "check_backend_health (\<lambda>h pt path. NoResult Connection) ?b = Inr False"
    using probe_outcomes_never_escape [of "\<lambda>h pt path. NoResult Connection" ?b _ Connection] by simp
  moreover have "check_backend_health (\<lambda>h pt path. NoResult Timeout) ?b = Inr False"
    using probe_outcomes_never_escape [of "\<lambda>h pt path. NoResult Timeout" ?b _ Timeout] by simp
  moreover have "check_backend_health (\<lambda>h pt path. Raised ''boom'') ?b = Inr False"
    using probe_outcomes_never_escape [of "\<lambda>h pt path. Raised ''boom''" ?b _ _ "''boom''"] by simp
  moreover have "health_check_loop ?envs (BackendManager_new (\<lambda>k. k) test_configs)
   = Inr (stopped, \<lparr>backends =
       [\<lparr>host = ''localhost'', port = 8080, health_endpoint = ''/health'', is_healthy = False, last_check = 7\<rparr>,
        \<lparr>host = ''localhost'', port = 8081, health_endpoint = ''/health'', is_healthy = False, last_check = 7\<rparr>,
        \<lparr>host = ''localhost'', port = 8082, health_endpoint = ''/health'', is_healthy = False, last_check = 7\<rparr>]\<rparr>)"
    by (simp add: health_check_cycle_def get_all_backends_def test_manager_backends
        check_backend_health_eq update_health_def deref_def BackendServer_new_def)
  ultimately show ?thesis using a by (simp add: Let_def)
qed

end
